theory Spec2Isabelle
  imports Main
begin

section \<open>The sync bootstrap of \<open>apps/sim/stores/sync-registry.ts\<close>\<close>

text \<open>
  The module keeps three module-level variables (\<open>initialized\<close>, \<open>initializing\<close>,
  \<open>managers\<close>) and exports \<open>initializeSyncManagers\<close> (an async function),
  \<open>isSyncInitialized\<close>, \<open>getSyncManagers\<close> and \<open>resetSyncManagers\<close>.
  Everything else it touches is imported: \<open>isLocalStorageMode\<close>,
  \<open>fetchWorkflowsFromDB\<close>, \<open>isRegistryInitialized\<close>,
  \<open>resetRegistryInitialization\<close>, \<open>workflowSync\<close> and the logger.

  The embedding passes the state explicitly. The imported functions are parameters: each
  one is a function on an abstract external world \<open>'w\<close> that either throws or returns a
  value, and leaves a new world. Every call of an imported function, every log line and
  every timer is also appended to a trace, so that "is not invoked" can be stated.
\<close>

subsection \<open>Data\<close>

datatype js_exn = JsError string

datatype level = Info | Warn | Error

datatype event =
    Invoke_isLocalStorageMode
  | Invoke_resetRegistryInitialization
  | Invoke_fetchWorkflowsFromDB
  | Invoke_isRegistryInitialized
  | Log level string "js_exn option"
  | SetTimeout nat

text \<open>How the promise returned by \<open>fetchWorkflowsFromDB()\<close> settles.\<close>

datatype settled = Fulfilled | Rejected js_exn

text \<open>The two \<open>await\<close>s of \<open>initializeSyncManagers\<close> (lines 54 and 59).\<close>

datatype pc = AwaitFetch | AwaitDelay

text \<open>
  How a piece of the body ends: it falls off its end (\<open>Normal\<close>), executes
  \<open>return b\<close>, throws, or suspends at an \<open>await\<close>.
\<close>

datatype flow = Normal | Return bool | Throw js_exn | Await pc

text \<open>
  The module-level variables (lines 16-18), with the external world and the trace.
\<close>

record ('m, 'w) state =
  initialized :: bool
  initializing :: bool
  managers :: "'m list"
  world :: 'w
  trace :: "event list"

text \<open>
  The imports of lines 4-11, as parameters. \<open>fetchWorkflowsFromDB\<close> is the synchronous
  part of the call: \<open>Inl e\<close> when it throws before returning a promise, \<open>Inr ()\<close> when
  it returns one. \<open>awaitFetch\<close> and \<open>awaitTimer\<close> are the event loop seen from a
  call that nothing interleaves with: how the pending fetch settles and what the world
  is by then, and what the world is once the 500 ms timer has fired.
\<close>

record ('m, 'w) collaborators =
  isLocalStorageMode :: "'w \<Rightarrow> (js_exn + bool) \<times> 'w"
  resetRegistryInitialization :: "'w \<Rightarrow> (js_exn + unit) \<times> 'w"
  fetchWorkflowsFromDB :: "'w \<Rightarrow> (js_exn + unit) \<times> 'w"
  isRegistryInitialized :: "'w \<Rightarrow> (js_exn + bool) \<times> 'w"
  workflowSync :: 'm
  awaitFetch :: "'w \<Rightarrow> settled \<times> 'w"
  awaitTimer :: "'w \<Rightarrow> 'w"

subsection \<open>Calls of the imported functions\<close>

definition invoke ::
  "event \<Rightarrow> ('w \<Rightarrow> (js_exn + 'a) \<times> 'w) \<Rightarrow> ('m, 'w) state \<Rightarrow> (js_exn + 'a) \<times> ('m, 'w) state" where
  "invoke ev f s =
     (case f (world s) of (r, w') \<Rightarrow> (r, s\<lparr>world := w', trace := trace s @ [ev]\<rparr>))"

definition call_isLocalStorageMode ::
  "('m, 'w) collaborators \<Rightarrow> ('m, 'w) state \<Rightarrow> (js_exn + bool) \<times> ('m, 'w) state" where
  "call_isLocalStorageMode c = invoke Invoke_isLocalStorageMode (isLocalStorageMode c)"

definition call_resetRegistryInitialization ::
  "('m, 'w) collaborators \<Rightarrow> ('m, 'w) state \<Rightarrow> (js_exn + unit) \<times> ('m, 'w) state" where
  "call_resetRegistryInitialization c =
     invoke Invoke_resetRegistryInitialization (resetRegistryInitialization c)"

definition call_fetchWorkflowsFromDB ::
  "('m, 'w) collaborators \<Rightarrow> ('m, 'w) state \<Rightarrow> (js_exn + unit) \<times> ('m, 'w) state" where
  "call_fetchWorkflowsFromDB c = invoke Invoke_fetchWorkflowsFromDB (fetchWorkflowsFromDB c)"

definition call_isRegistryInitialized ::
  "('m, 'w) collaborators \<Rightarrow> ('m, 'w) state \<Rightarrow> (js_exn + bool) \<times> ('m, 'w) state" where
  "call_isRegistryInitialized c = invoke Invoke_isRegistryInitialized (isRegistryInitialized c)"

text \<open>
  Modelled from the spec: the logger (\<open>createLogger\<close> of \<open>@/lib/logs/console-logger\<close>) is
  not part of the excerpt. The spec describes it as a logging sink accepting leveled
  messages with an optional structured error payload, used purely for observability, on
  whose output no behaviour depends. So a log call records its line and returns; it
  never throws.
\<close>

definition logger :: "level \<Rightarrow> string \<Rightarrow> js_exn option \<Rightarrow> ('m, 'w) state \<Rightarrow> ('m, 'w) state" where
  "logger l msg payload s = s\<lparr>trace := trace s @ [Log l msg payload]\<rparr>"

text \<open>\<open>setTimeout(resolve, 500)\<close>: the timer is armed; the call suspends on it.\<close>

definition setTimeout :: "nat \<Rightarrow> ('m, 'w) state \<Rightarrow> ('m, 'w) state" where
  "setTimeout ms s = s\<lparr>trace := trace s @ [SetTimeout ms]\<rparr>"

subsection \<open>\<open>initializeSyncManagers\<close>, cut at its two \<open>await\<close>s\<close>

text \<open>Lines 62-67: verify, for the log only.\<close>

definition inner_verify ::
  "('m, 'w) collaborators \<Rightarrow> ('m, 'w) state \<Rightarrow> flow \<times> ('m, 'w) state" where
  "inner_verify c s =
     (case call_isRegistryInitialized c s of
        (Inl e, s1) \<Rightarrow> (Throw e, s1)
      | (Inr b, s1) \<Rightarrow>
          if \<not> b
          then (Normal, logger Warn ''Registry initialization may not have completed properly'' None s1)
          else (Normal, logger Info ''Registry initialization verified'' None s1))"

text \<open>Lines 56-60, then on to the verification unless the call suspends on the timer.\<close>

definition inner_check ::
  "('m, 'w) collaborators \<Rightarrow> ('m, 'w) state \<Rightarrow> flow \<times> ('m, 'w) state" where
  "inner_check c s =
     (case call_isRegistryInitialized c s of
        (Inl e, s1) \<Rightarrow> (Throw e, s1)
      | (Inr b, s1) \<Rightarrow>
          if \<not> b
          then (Await AwaitDelay,
                setTimeout 500
                  (logger Info ''Waiting for registry initialization to complete...'' None s1))
          else inner_verify c s1)"

text \<open>Line 54, up to the \<open>await\<close>.\<close>

definition inner_start ::
  "('m, 'w) collaborators \<Rightarrow> ('m, 'w) state \<Rightarrow> flow \<times> ('m, 'w) state" where
  "inner_start c s =
     (case call_fetchWorkflowsFromDB c s of
        (Inl e, s1) \<Rightarrow> (Throw e, s1)
      | (Inr u, s1) \<Rightarrow> (Await AwaitFetch, s1))"

text \<open>Line 54, from the \<open>await\<close> on: a rejected promise throws at the \<open>await\<close>.\<close>

definition inner_resume_fetch ::
  "('m, 'w) collaborators \<Rightarrow> settled \<Rightarrow> ('m, 'w) state \<Rightarrow> flow \<times> ('m, 'w) state" where
  "inner_resume_fetch c r s =
     (case r of
        Rejected e \<Rightarrow> (Throw e, s)
      | Fulfilled \<Rightarrow> inner_check c s)"

text \<open>Line 59, from the \<open>await\<close> on.\<close>

definition inner_resume_delay ::
  "('m, 'w) collaborators \<Rightarrow> ('m, 'w) state \<Rightarrow> flow \<times> ('m, 'w) state" where
  "inner_resume_delay c s = inner_verify c s"

text \<open>Lines 68-70: the \<open>catch\<close> of the inner \<open>try\<close>.\<close>

definition inner_catch :: "flow \<times> ('m, 'w) state \<Rightarrow> flow \<times> ('m, 'w) state" where
  "inner_catch r =
     (case r of
        (Throw e, s) \<Rightarrow> (Normal, logger Error ''Error fetching data from DB:'' (Some e) s)
      | _ \<Rightarrow> r)"

text \<open>Lines 72-73: what follows the inner \<open>try\<close> statement.\<close>

definition after_inner :: "flow \<times> ('m, 'w) state \<Rightarrow> flow \<times> ('m, 'w) state" where
  "after_inner r =
     (case r of
        (Normal, s) \<Rightarrow> (Return True, s\<lparr>initialized := True\<rparr>)
      | _ \<Rightarrow> r)"

text \<open>Lines 74-76: the \<open>catch\<close> of the outer \<open>try\<close>.\<close>

definition outer_catch :: "flow \<times> ('m, 'w) state \<Rightarrow> flow \<times> ('m, 'w) state" where
  "outer_catch r =
     (case r of
        (Throw e, s) \<Rightarrow> (Return False, logger Error ''Error initializing sync managers:'' (Some e) s)
      | _ \<Rightarrow> r)"

text \<open>
  Lines 77-79: the \<open>finally\<close> block runs when control leaves the \<open>try\<close> statement,
  not when the function merely suspends inside it.
\<close>

definition outer_finally :: "flow \<times> ('m, 'w) state \<Rightarrow> flow \<times> ('m, 'w) state" where
  "outer_finally r =
     (case r of
        (Await p, s) \<Rightarrow> (Await p, s)
      | (f, s) \<Rightarrow> (f, s\<lparr>initializing := False\<rparr>))"

text \<open>Lines 38-73: the body of the outer \<open>try\<close>, up to the first \<open>await\<close>.\<close>

definition outer_start ::
  "('m, 'w) collaborators \<Rightarrow> ('m, 'w) state \<Rightarrow> flow \<times> ('m, 'w) state" where
  "outer_start c s =
     (case call_isLocalStorageMode c s of
        (Inl e, s1) \<Rightarrow> (Throw e, s1)
      | (Inr local, s1) \<Rightarrow>
          if local
          then (Return True, s1\<lparr>managers := [workflowSync c], initialized := True\<rparr>)
          else
            (case call_resetRegistryInitialization c (s1\<lparr>managers := [workflowSync c]\<rparr>) of
               (Inl e, s2) \<Rightarrow> (Throw e, s2)
             | (Inr u, s2) \<Rightarrow> after_inner (inner_catch (inner_start c s2))))"

text \<open>The call itself: lines 29-35 and the \<open>try\<close> statement up to the first \<open>await\<close>.\<close>

definition initializeSyncManagers_enter ::
  "('m, 'w) collaborators \<Rightarrow> ('m, 'w) state \<Rightarrow> flow \<times> ('m, 'w) state" where
  "initializeSyncManagers_enter c s =
     (if initialized s \<or> initializing s
      then (Return (initialized s), s)
      else outer_finally (outer_catch (outer_start c (s\<lparr>initializing := True\<rparr>))))"

text \<open>The call resumed when the fetch has settled.\<close>

definition initializeSyncManagers_resume_fetch ::
  "('m, 'w) collaborators \<Rightarrow> settled \<Rightarrow> ('m, 'w) state \<Rightarrow> flow \<times> ('m, 'w) state" where
  "initializeSyncManagers_resume_fetch c r s =
     outer_finally (outer_catch (after_inner (inner_catch (inner_resume_fetch c r s))))"

text \<open>The call resumed when the timer has fired.\<close>

definition initializeSyncManagers_resume_delay ::
  "('m, 'w) collaborators \<Rightarrow> ('m, 'w) state \<Rightarrow> flow \<times> ('m, 'w) state" where
  "initializeSyncManagers_resume_delay c s =
     outer_finally (outer_catch (after_inner (inner_catch (inner_resume_delay c s))))"

text \<open>
  A whole call that nothing interleaves with: the event loop resumes it with the
  settlement \<open>awaitFetch\<close> gives, and after the timer in the world \<open>awaitTimer\<close> gives.
\<close>

definition wait_fetch ::
  "('m, 'w) collaborators \<Rightarrow> ('m, 'w) state \<Rightarrow> flow \<times> ('m, 'w) state" where
  "wait_fetch c s =
     (case awaitFetch c (world s) of
        (r, w') \<Rightarrow> initializeSyncManagers_resume_fetch c r (s\<lparr>world := w'\<rparr>))"

definition wait_delay ::
  "('m, 'w) collaborators \<Rightarrow> ('m, 'w) state \<Rightarrow> flow \<times> ('m, 'w) state" where
  "wait_delay c s = initializeSyncManagers_resume_delay c (s\<lparr>world := awaitTimer c (world s)\<rparr>)"

definition await_all ::
  "('m, 'w) collaborators \<Rightarrow> flow \<times> ('m, 'w) state \<Rightarrow> flow \<times> ('m, 'w) state" where
  "await_all c r =
     (case r of
        (Await AwaitFetch, s1) \<Rightarrow>
          (case wait_fetch c s1 of
             (Await p, s2) \<Rightarrow> wait_delay c s2
           | r' \<Rightarrow> r')
      | (Await AwaitDelay, s1) \<Rightarrow> wait_delay c s1
      | _ \<Rightarrow> r)"

definition initializeSyncManagers ::
  "('m, 'w) collaborators \<Rightarrow> ('m, 'w) state \<Rightarrow> flow \<times> ('m, 'w) state" where
  "initializeSyncManagers c s = await_all c (initializeSyncManagers_enter c s)"

subsection \<open>The synchronous exports\<close>

text \<open>Lines 85-87. \<open>&&\<close> evaluates its right operand only when the left one is true.\<close>

definition isSyncInitialized ::
  "('m, 'w) collaborators \<Rightarrow> ('m, 'w) state \<Rightarrow> (js_exn + bool) \<times> ('m, 'w) state" where
  "isSyncInitialized c s =
     (if initialized s then call_isRegistryInitialized c s else (Inr False, s))"

text \<open>Lines 92-94.\<close>

definition getSyncManagers :: "('m, 'w) state \<Rightarrow> 'm list" where
  "getSyncManagers s = managers s"

text \<open>Lines 99-104.\<close>

definition resetSyncManagers ::
  "('m, 'w) collaborators \<Rightarrow> ('m, 'w) state \<Rightarrow> (js_exn + unit) \<times> ('m, 'w) state" where
  "resetSyncManagers c s =
     call_resetRegistryInitialization c
       (s\<lparr>initialized := False, initializing := False, managers := []\<rparr>)"

text \<open>The events a run has added to the trace.\<close>

definition new_events :: "('m, 'w) state \<Rightarrow> ('m, 'w) state \<Rightarrow> event list" where
  "new_events s s' = drop (length (trace s)) (trace s')"

subsection \<open>The module in the event loop\<close>

text \<open>
  Between two suspension points nothing else runs, so the module moves in atomic steps:
  a caller calls an export, the event loop resumes a suspended call of
  \<open>initializeSyncManagers\<close> (the fetch of the \<open>i\<close>-th suspended call settles, or
  its timer fires), or other code changes the external world. A configuration is the
  state with the suspension points of the calls in flight.
\<close>

datatype 'w action =
    CallInitialize
  | FetchSettles nat settled
  | TimerFires nat
  | CallReset
  | CallIsSyncInitialized
  | CallGetSyncManagers
  | Environment 'w

type_synonym ('m, 'w) config = "('m, 'w) state \<times> pc list"

definition resumed :: "nat \<Rightarrow> flow \<times> ('m, 'w) state \<Rightarrow> pc list \<Rightarrow> ('m, 'w) config" where
  "resumed i r ps =
     (case r of
        (Await p, s) \<Rightarrow> (s, ps[i := p])
      | (f, s) \<Rightarrow> (s, take i ps @ drop (Suc i) ps))"

fun step :: "('m, 'w) collaborators \<Rightarrow> 'w action \<Rightarrow> ('m, 'w) config \<Rightarrow> ('m, 'w) config option" where
  "step c CallInitialize (s, ps) =
     (case initializeSyncManagers_enter c s of
        (Await p, s') \<Rightarrow> Some (s', ps @ [p])
      | (f, s') \<Rightarrow> Some (s', ps))"
| "step c (FetchSettles i r) (s, ps) =
     (if i < length ps \<and> ps ! i = AwaitFetch
      then Some (resumed i (initializeSyncManagers_resume_fetch c r s) ps)
      else None)"
| "step c (TimerFires i) (s, ps) =
     (if i < length ps \<and> ps ! i = AwaitDelay
      then Some (resumed i (initializeSyncManagers_resume_delay c s) ps)
      else None)"
| "step c CallReset (s, ps) = Some (snd (resetSyncManagers c s), ps)"
| "step c CallIsSyncInitialized (s, ps) = Some (snd (isSyncInitialized c s), ps)"
| "step c CallGetSyncManagers (s, ps) = Some (s, ps)"
| "step c (Environment w) (s, ps) = Some (s\<lparr>world := w\<rparr>, ps)"

fun run :: "('m, 'w) collaborators \<Rightarrow> 'w action list \<Rightarrow> ('m, 'w) config \<Rightarrow> ('m, 'w) config option" where
  "run c [] cfg = Some cfg"
| "run c (a # as) cfg = (case step c a cfg of None \<Rightarrow> None | Some cfg' \<Rightarrow> run c as cfg')"

text \<open>Module load (lines 16-18): nothing initialized, no call in flight.\<close>

definition boot :: "'w \<Rightarrow> ('m, 'w) state" where
  "boot w = \<lparr>initialized = False, initializing = False, managers = [], world = w, trace = []\<rparr>"

definition initial :: "'w \<Rightarrow> ('m, 'w) config" where
  "initial w = (boot w, [])"

text \<open>How often \<open>initialized\<close> goes from false to true along a run.\<close>

fun rises :: "('m, 'w) collaborators \<Rightarrow> 'w action list \<Rightarrow> ('m, 'w) config \<Rightarrow> nat" where
  "rises c [] cfg = 0"
| "rises c (a # as) cfg =
     (case step c a cfg of
        None \<Rightarrow> 0
      | Some cfg' \<Rightarrow>
          (if \<not> initialized (fst cfg) \<and> initialized (fst cfg') then 1 else 0) + rises c as cfg')"

text \<open>
  What the two flags promise between two steps: they are never both true, and
  \<open>initializing\<close> is true only while a call is in flight.
\<close>

definition coherent :: "('m, 'w) config \<Rightarrow> bool" where
  "coherent cfg =
     (\<not> (initialized (fst cfg) \<and> initializing (fst cfg)) \<and>
      (initializing (fst cfg) \<longrightarrow> snd cfg \<noteq> []))"

text \<open>
  A run in which \<open>resetSyncManagers()\<close> is only called while no call of
  \<open>initializeSyncManagers\<close> is in flight.
\<close>

fun resets_idle :: "('m, 'w) collaborators \<Rightarrow> 'w action list \<Rightarrow> ('m, 'w) config \<Rightarrow> bool" where
  "resets_idle c [] cfg = True"
| "resets_idle c (a # as) cfg =
     ((a = CallReset \<longrightarrow> snd cfg = []) \<and>
      (case step c a cfg of
         None \<Rightarrow> True
       | Some cfg' \<Rightarrow> resets_idle c as cfg'))"

text \<open>
  What holds in such a run: at most one call is in flight, and while it is,
  \<open>initializing\<close> is true and \<open>initialized\<close> false.
\<close>

definition single_flight :: "('m, 'w) config \<Rightarrow> bool" where
  "single_flight cfg =
     (length (snd cfg) \<le> 1 \<and>
      (snd cfg \<noteq> [] \<longrightarrow> initializing (fst cfg) \<and> \<not> initialized (fst cfg)))"

subsection \<open>Concrete collaborators\<close>

text \<open>
  A small world for running the model: the world is the readiness flag of the registry.
  The fetch of \<open>remote\<close> succeeds and makes the registry ready.
\<close>

definition remote :: "(string, bool) collaborators" where
  "remote =
     \<lparr>isLocalStorageMode = (\<lambda>w. (Inr False, w)),
      resetRegistryInitialization = (\<lambda>w. (Inr (), False)),
      fetchWorkflowsFromDB = (\<lambda>w. (Inr (), w)),
      isRegistryInitialized = (\<lambda>w. (Inr w, w)),
      workflowSync = ''workflowSync'',
      awaitFetch = (\<lambda>w. (Fulfilled, True)),
      awaitTimer = (\<lambda>w. w)\<rparr>"

definition local_mode :: "(string, bool) collaborators" where
  "local_mode = remote\<lparr>isLocalStorageMode := (\<lambda>w. (Inr True, w))\<rparr>"



definition reset_throws :: "(string, bool) collaborators" where
  "reset_throws = remote\<lparr>resetRegistryInitialization := (\<lambda>w. (Inl (JsError ''store gone''), w))\<rparr>"


subsection \<open>Reading the trace\<close>

text \<open>The line a verification (lines 62-70) logs, from what the predicate gave.\<close>

definition verdict :: "js_exn + bool \<Rightarrow> event" where
  "verdict r =
     (case r of
        Inl e \<Rightarrow> Log Error ''Error fetching data from DB:'' (Some e)
      | Inr b \<Rightarrow>
          if b then Log Info ''Registry initialization verified'' None
          else Log Warn ''Registry initialization may not have completed properly'' None)"

fun is_timer :: "event \<Rightarrow> bool" where
  "is_timer (SetTimeout ms) = True"
| "is_timer ev = False"

section \<open>One path of the code at a time\<close>

lemmas call_defs =
  call_isLocalStorageMode_def call_resetRegistryInitialization_def
  call_fetchWorkflowsFromDB_def call_isRegistryInitialized_def

lemmas wrap_defs = inner_catch_def after_inner_def outer_catch_def outer_finally_def

lemma invoke_eq:
  "invoke ev f s = (fst (f (world s)), s\<lparr>world := snd (f (world s)), trace := trace s @ [ev]\<rparr>)"
  by (simp add: invoke_def split: prod.split)

lemma inner_verify_eq:
  "inner_verify c s =
    (case fst (isRegistryInitialized c (world s)) of
       Inl e \<Rightarrow>
         (Throw e, s\<lparr>world := snd (isRegistryInitialized c (world s)),
                     trace := trace s @ [Invoke_isRegistryInitialized]\<rparr>)
     | Inr b \<Rightarrow>
         (Normal, s\<lparr>world := snd (isRegistryInitialized c (world s)),
                    trace := trace s @ [Invoke_isRegistryInitialized,
                      if b then Log Info ''Registry initialization verified'' None
                      else Log Warn ''Registry initialization may not have completed properly'' None]\<rparr>))"
  by (simp add: inner_verify_def call_defs invoke_eq logger_def split: sum.split)

lemma resume_delay_eq:
  "initializeSyncManagers_resume_delay c s =
    (Return True,
     s\<lparr>initialized := True, initializing := False,
       world := snd (isRegistryInitialized c (world s)),
       trace := trace s @ [Invoke_isRegistryInitialized,
                           verdict (fst (isRegistryInitialized c (world s)))]\<rparr>)"
  by (simp add: initializeSyncManagers_resume_delay_def inner_resume_delay_def inner_verify_eq
       wrap_defs logger_def verdict_def split: sum.split)

lemma resume_fetch_rejected:
  "initializeSyncManagers_resume_fetch c (Rejected e) s =
     (Return True,
      s\<lparr>initialized := True, initializing := False,
        trace := trace s @ [Log Error ''Error fetching data from DB:'' (Some e)]\<rparr>)"
  by (simp add: initializeSyncManagers_resume_fetch_def inner_resume_fetch_def wrap_defs logger_def)

lemma resume_fetch_check_throws:
  "isRegistryInitialized c (world s) = (Inl e, w) \<Longrightarrow>
   initializeSyncManagers_resume_fetch c Fulfilled s =
     (Return True,
      s\<lparr>initialized := True, initializing := False, world := w,
        trace := trace s @ [Invoke_isRegistryInitialized,
                            Log Error ''Error fetching data from DB:'' (Some e)]\<rparr>)"
  by (simp add: initializeSyncManagers_resume_fetch_def inner_resume_fetch_def inner_check_def
        call_defs invoke_eq wrap_defs logger_def)

lemma resume_fetch_not_ready:
  "isRegistryInitialized c (world s) = (Inr False, w) \<Longrightarrow>
   initializeSyncManagers_resume_fetch c Fulfilled s =
     (Await AwaitDelay,
      s\<lparr>world := w,
        trace := trace s @ [Invoke_isRegistryInitialized,
          Log Info ''Waiting for registry initialization to complete...'' None,
          SetTimeout 500]\<rparr>)"
  by (simp add: initializeSyncManagers_resume_fetch_def inner_resume_fetch_def inner_check_def
        call_defs invoke_eq wrap_defs logger_def setTimeout_def)

lemma resume_fetch_ready:
  "isRegistryInitialized c (world s) = (Inr True, w) \<Longrightarrow>
   initializeSyncManagers_resume_fetch c Fulfilled s =
     initializeSyncManagers_resume_delay c
       (s\<lparr>world := w, trace := trace s @ [Invoke_isRegistryInitialized]\<rparr>)"
  by (simp add: initializeSyncManagers_resume_fetch_def initializeSyncManagers_resume_delay_def
        inner_resume_fetch_def inner_resume_delay_def inner_check_def call_defs invoke_eq)

lemma enter_guard:
  "initialized s \<or> initializing s \<Longrightarrow>
   initializeSyncManagers_enter c s = (Return (initialized s), s)"
  by (simp add: initializeSyncManagers_enter_def)

lemma enter_mode_throws:
  "\<not> initialized s \<Longrightarrow> \<not> initializing s \<Longrightarrow>
   isLocalStorageMode c (world s) = (Inl e, w1) \<Longrightarrow>
   initializeSyncManagers_enter c s =
     (Return False,
      s\<lparr>initializing := False, world := w1,
        trace := trace s @ [Invoke_isLocalStorageMode,
          Log Error ''Error initializing sync managers:'' (Some e)]\<rparr>)"
  by (simp add: initializeSyncManagers_enter_def outer_start_def call_defs invoke_eq wrap_defs
        logger_def)

lemma enter_local:
  "\<not> initialized s \<Longrightarrow> \<not> initializing s \<Longrightarrow>
   isLocalStorageMode c (world s) = (Inr True, w1) \<Longrightarrow>
   initializeSyncManagers_enter c s =
     (Return True,
      s\<lparr>initialized := True, initializing := False, managers := [workflowSync c],
        world := w1, trace := trace s @ [Invoke_isLocalStorageMode]\<rparr>)"
  by (simp add: initializeSyncManagers_enter_def outer_start_def call_defs invoke_eq wrap_defs)

lemma enter_reset_throws:
  "\<not> initialized s \<Longrightarrow> \<not> initializing s \<Longrightarrow>
   isLocalStorageMode c (world s) = (Inr False, w1) \<Longrightarrow>
   resetRegistryInitialization c w1 = (Inl e, w2) \<Longrightarrow>
   initializeSyncManagers_enter c s =
     (Return False,
      s\<lparr>initializing := False, managers := [workflowSync c], world := w2,
        trace := trace s @ [Invoke_isLocalStorageMode, Invoke_resetRegistryInitialization,
          Log Error ''Error initializing sync managers:'' (Some e)]\<rparr>)"
  by (simp add: initializeSyncManagers_enter_def outer_start_def call_defs invoke_eq wrap_defs
        logger_def)

lemma enter_fetch_throws:
  "\<not> initialized s \<Longrightarrow> \<not> initializing s \<Longrightarrow>
   isLocalStorageMode c (world s) = (Inr False, w1) \<Longrightarrow>
   resetRegistryInitialization c w1 = (Inr u, w2) \<Longrightarrow>
   fetchWorkflowsFromDB c w2 = (Inl e, w3) \<Longrightarrow>
   initializeSyncManagers_enter c s =
     (Return True,
      s\<lparr>initialized := True, initializing := False, managers := [workflowSync c], world := w3,
        trace := trace s @ [Invoke_isLocalStorageMode, Invoke_resetRegistryInitialization,
          Invoke_fetchWorkflowsFromDB, Log Error ''Error fetching data from DB:'' (Some e)]\<rparr>)"
  by (simp add: initializeSyncManagers_enter_def outer_start_def inner_start_def call_defs
        invoke_eq wrap_defs logger_def)

lemma enter_fetch_pending:
  "\<not> initialized s \<Longrightarrow> \<not> initializing s \<Longrightarrow>
   isLocalStorageMode c (world s) = (Inr False, w1) \<Longrightarrow>
   resetRegistryInitialization c w1 = (Inr u, w2) \<Longrightarrow>
   fetchWorkflowsFromDB c w2 = (Inr u', w3) \<Longrightarrow>
   initializeSyncManagers_enter c s =
     (Await AwaitFetch,
      s\<lparr>initializing := True, managers := [workflowSync c], world := w3,
        trace := trace s @ [Invoke_isLocalStorageMode, Invoke_resetRegistryInitialization,
          Invoke_fetchWorkflowsFromDB]\<rparr>)"
  by (simp add: initializeSyncManagers_enter_def outer_start_def inner_start_def call_defs
        invoke_eq wrap_defs)

section \<open>Summaries of the pieces\<close>

lemma resume_fetch_summary:
  "(fst (initializeSyncManagers_resume_fetch c r s) = Return True \<and>
    initialized (snd (initializeSyncManagers_resume_fetch c r s)) \<and>
    \<not> initializing (snd (initializeSyncManagers_resume_fetch c r s)) \<and>
    managers (snd (initializeSyncManagers_resume_fetch c r s)) = managers s) \<or>
   (fst (initializeSyncManagers_resume_fetch c r s) = Await AwaitDelay \<and>
    initialized (snd (initializeSyncManagers_resume_fetch c r s)) = initialized s \<and>
    initializing (snd (initializeSyncManagers_resume_fetch c r s)) = initializing s \<and>
    managers (snd (initializeSyncManagers_resume_fetch c r s)) = managers s)"
proof (cases r)
  case (Rejected e)
  then show ?thesis by (simp add: resume_fetch_rejected)
next
  case Fulfilled
  obtain x w where xw: "isRegistryInitialized c (world s) = (x, w)"
    by (cases "isRegistryInitialized c (world s)")
  show ?thesis
  proof (cases x)
    case (Inl e)
    with xw Fulfilled show ?thesis by (simp add: resume_fetch_check_throws)
  next
    case (Inr b)
    show ?thesis
    proof (cases b)
      case True
      with xw Inr Fulfilled show ?thesis by (simp add: resume_fetch_ready resume_delay_eq)
    next
      case False
      with xw Inr Fulfilled show ?thesis by (simp add: resume_fetch_not_ready)
    qed
  qed
qed

lemma enter_summary:
  assumes "\<not> initialized s" "\<not> initializing s"
  shows
  "(fst (initializeSyncManagers_enter c s) = Return True \<and>
    initialized (snd (initializeSyncManagers_enter c s)) \<and>
    \<not> initializing (snd (initializeSyncManagers_enter c s))) \<or>
   (fst (initializeSyncManagers_enter c s) = Return False \<and>
    \<not> initialized (snd (initializeSyncManagers_enter c s)) \<and>
    \<not> initializing (snd (initializeSyncManagers_enter c s))) \<or>
   (fst (initializeSyncManagers_enter c s) = Await AwaitFetch \<and>
    \<not> initialized (snd (initializeSyncManagers_enter c s)) \<and>
    initializing (snd (initializeSyncManagers_enter c s)) \<and>
    managers (snd (initializeSyncManagers_enter c s)) = [workflowSync c])"
proof -
  obtain x w1 where m: "isLocalStorageMode c (world s) = (x, w1)"
    by (cases "isLocalStorageMode c (world s)")
  show ?thesis
  proof (cases x)
    case (Inl e)
    with m assms show ?thesis by (simp add: enter_mode_throws)
  next
    case (Inr b)
    show ?thesis
    proof (cases b)
      case True
      with m Inr assms show ?thesis by (simp add: enter_local)
    next
      case False
      obtain y w2 where r: "resetRegistryInitialization c w1 = (y, w2)"
        by (cases "resetRegistryInitialization c w1")
      show ?thesis
      proof (cases y)
        case (Inl e)
        with m Inr False r assms show ?thesis by (simp add: enter_reset_throws)
      next
        case (Inr u)
        note ru = this
        obtain z w3 where f: "fetchWorkflowsFromDB c w2 = (z, w3)"
          by (cases "fetchWorkflowsFromDB c w2")
        show ?thesis
        proof (cases z)
          case (Inl e)
          with m \<open>x = Inr b\<close> False r ru f assms show ?thesis by (simp add: enter_fetch_throws)
        next
          case (Inr u')
          with m \<open>x = Inr b\<close> False r ru f assms show ?thesis by (simp add: enter_fetch_pending)
        qed
      qed
    qed
  qed
qed

section \<open>A call that runs alone\<close>

lemma new_events_same [simp]: "new_events s s = []"
  by (simp add: new_events_def)

lemma await_all_Return [simp]: "await_all c (Return b, s) = (Return b, s)"
  by (simp add: await_all_def)

lemma await_all_rejected:
  "awaitFetch c (world s1) = (Rejected e, w4) \<Longrightarrow>
   await_all c (Await AwaitFetch, s1) =
     (Return True,
      s1\<lparr>initialized := True, initializing := False, world := w4,
         trace := trace s1 @ [Log Error ''Error fetching data from DB:'' (Some e)]\<rparr>)"
  by (simp add: await_all_def wait_fetch_def resume_fetch_rejected)

lemma await_all_check_throws:
  "awaitFetch c (world s1) = (Fulfilled, w4) \<Longrightarrow> isRegistryInitialized c w4 = (Inl e, w5) \<Longrightarrow>
   await_all c (Await AwaitFetch, s1) =
     (Return True,
      s1\<lparr>initialized := True, initializing := False, world := w5,
         trace := trace s1 @ [Invoke_isRegistryInitialized,
                              Log Error ''Error fetching data from DB:'' (Some e)]\<rparr>)"
  by (simp add: await_all_def wait_fetch_def resume_fetch_check_throws)

lemma await_all_ready:
  "awaitFetch c (world s1) = (Fulfilled, w4) \<Longrightarrow> isRegistryInitialized c w4 = (Inr True, w5) \<Longrightarrow>
   await_all c (Await AwaitFetch, s1) =
     (Return True,
      s1\<lparr>initialized := True, initializing := False,
         world := snd (isRegistryInitialized c w5),
         trace := trace s1 @ [Invoke_isRegistryInitialized, Invoke_isRegistryInitialized,
                              verdict (fst (isRegistryInitialized c w5))]\<rparr>)"
  by (simp add: await_all_def wait_fetch_def resume_fetch_ready resume_delay_eq)

lemma await_all_not_ready:
  "awaitFetch c (world s1) = (Fulfilled, w4) \<Longrightarrow> isRegistryInitialized c w4 = (Inr False, w5) \<Longrightarrow>
   await_all c (Await AwaitFetch, s1) =
     (Return True,
      s1\<lparr>initialized := True, initializing := False,
         world := snd (isRegistryInitialized c (awaitTimer c w5)),
         trace := trace s1 @ [Invoke_isRegistryInitialized,
           Log Info ''Waiting for registry initialization to complete...'' None,
           SetTimeout 500,
           Invoke_isRegistryInitialized,
           verdict (fst (isRegistryInitialized c (awaitTimer c w5)))]\<rparr>)"
  by (simp add: await_all_def wait_fetch_def wait_delay_def resume_fetch_not_ready resume_delay_eq)

lemma await_all_fetch_summary:
  "fst (await_all c (Await AwaitFetch, s1)) = Return True \<and>
   initialized (snd (await_all c (Await AwaitFetch, s1))) \<and>
   \<not> initializing (snd (await_all c (Await AwaitFetch, s1))) \<and>
   managers (snd (await_all c (Await AwaitFetch, s1))) = managers s1"
proof -
  obtain r w4 where a: "awaitFetch c (world s1) = (r, w4)"
    by (cases "awaitFetch c (world s1)")
  show ?thesis
  proof (cases r)
    case (Rejected e)
    with a show ?thesis by (simp add: await_all_rejected)
  next
    case Fulfilled
    obtain x w5 where p: "isRegistryInitialized c w4 = (x, w5)"
      by (cases "isRegistryInitialized c w4")
    show ?thesis
    proof (cases x)
      case (Inl e)
      with a Fulfilled p show ?thesis by (simp add: await_all_check_throws)
    next
      case (Inr b)
      show ?thesis
      proof (cases b)
        case True
        with a Fulfilled p Inr show ?thesis by (simp add: await_all_ready)
      next
        case False
        with a Fulfilled p Inr show ?thesis by (simp add: await_all_not_ready)
      qed
    qed
  qed
qed

lemma verdict_not_timer [simp]: "\<not> is_timer (verdict r)"
  by (simp add: verdict_def split: sum.split)

lemma driver_guard:
  "initialized s \<or> initializing s \<Longrightarrow> initializeSyncManagers c s = (Return (initialized s), s)"
  by (simp add: initializeSyncManagers_def enter_guard)

lemma enter_pending_flags:
  assumes "initializeSyncManagers_enter c s = (Await p, s1)"
  shows "p = AwaitFetch \<and> \<not> initialized s \<and> \<not> initializing s \<and> \<not> initialized s1 \<and> initializing s1"
proof -
  have g: "\<not> (initialized s \<or> initializing s)"
    using assms by (auto simp: enter_guard)
  then have "\<not> initialized s" "\<not> initializing s" by simp_all
  from enter_summary [OF this, of c] assms g show ?thesis by auto
qed

lemma remote_enter:
  "initializeSyncManagers_enter remote (boot True) =
    (Await AwaitFetch, \<lparr>initialized = False, initializing = True, managers = [''workflowSync''],
       world = False, trace = [Invoke_isLocalStorageMode, Invoke_resetRegistryInitialization,
          Invoke_fetchWorkflowsFromDB]\<rparr>)"
  by (simp add: enter_fetch_pending [where ?w1.0 = True and ?w2.0 = False and ?w3.0 = False] remote_def boot_def)


section \<open>A fetch that fails\<close>



section \<open>The check after the fetch\<close>




section \<open>Errors never leave the call\<close>

lemma driver_summary:
  assumes "\<not> initialized s" and "\<not> initializing s"
  shows "(fst (initializeSyncManagers c s) = Return True \<and>
          initialized (snd (initializeSyncManagers c s)) \<or>
          fst (initializeSyncManagers c s) = Return False \<and>
          \<not> initialized (snd (initializeSyncManagers c s))) \<and>
         \<not> initializing (snd (initializeSyncManagers c s))"
proof -
  obtain f s1 where e: "initializeSyncManagers_enter c s = (f, s1)"
    by (cases "initializeSyncManagers_enter c s")
  from enter_summary [OF assms, of c] e
  consider "f = Return True" "initialized s1" "\<not> initializing s1"
    | "f = Return False" "\<not> initialized s1" "\<not> initializing s1"
    | "f = Await AwaitFetch"
    by auto
  then show ?thesis
  proof cases
    case 1
    with e show ?thesis by (simp add: initializeSyncManagers_def)
  next
    case 2
    with e show ?thesis by (simp add: initializeSyncManagers_def)
  next
    case 3
    with e await_all_fetch_summary [of c s1] show ?thesis
      by (simp add: initializeSyncManagers_def)
  qed
qed

text \<open>
  C4. A call of \<open>initializeSyncManagers\<close> always ends in \<open>return\<close>, never in an
  exception: an exception of \<open>isLocalStorageMode()\<close> or of
  \<open>resetRegistryInitialization()\<close>, the two calls outside the inner \<open>try\<close>, is logged
  by the outer \<open>catch\<close> and becomes the result false. Every call that passed the guard
  leaves \<open>initializing\<close> false. The same holds for a call resumed in any state: it
  returns true with \<open>initializing\<close> false, or suspends on the timer.
\<close>

theorem no_exception_escapes:
  "(\<exists>b. fst (initializeSyncManagers c s) = Return b) \<and>
   (\<not> initialized s \<and> \<not> initializing s \<longrightarrow>
      \<not> initializing (snd (initializeSyncManagers c s))) \<and>
   (\<not> initialized s \<and> \<not> initializing s \<and> isLocalStorageMode c (world s) = (Inl e, w1) \<longrightarrow>
      fst (initializeSyncManagers c s) = Return False \<and>
      new_events s (snd (initializeSyncManagers c s)) =
        [Invoke_isLocalStorageMode, Log Error ''Error initializing sync managers:'' (Some e)]) \<and>
   (\<not> initialized s \<and> \<not> initializing s \<and> isLocalStorageMode c (world s) = (Inr False, w1) \<and>
    resetRegistryInitialization c w1 = (Inl e, w2) \<longrightarrow>
      fst (initializeSyncManagers c s) = Return False \<and>
      new_events s (snd (initializeSyncManagers c s)) =
        [Invoke_isLocalStorageMode, Invoke_resetRegistryInitialization,
         Log Error ''Error initializing sync managers:'' (Some e)]) \<and>
   (fst (initializeSyncManagers_resume_fetch c r t) = Return True \<and>
      \<not> initializing (snd (initializeSyncManagers_resume_fetch c r t)) \<or>
    fst (initializeSyncManagers_resume_fetch c r t) = Await AwaitDelay) \<and>
   fst (initializeSyncManagers_resume_delay c t) = Return True \<and>
   \<not> initializing (snd (initializeSyncManagers_resume_delay c t))"
proof (intro conjI impI)
  show "\<exists>b. fst (initializeSyncManagers c s) = Return b"
  proof (cases "initialized s \<or> initializing s")
    case True
    then show ?thesis by (simp add: driver_guard)
  next
    case False
    then have "\<not> initialized s" "\<not> initializing s" by simp_all
    from driver_summary [OF this, of c] show ?thesis by blast
  qed
next
  assume "\<not> initialized s \<and> \<not> initializing s"
  then have "\<not> initialized s" "\<not> initializing s" by simp_all
  from driver_summary [OF this, of c]
  show "\<not> initializing (snd (initializeSyncManagers c s))" by blast
next
  assume a: "\<not> initialized s \<and> \<not> initializing s \<and> isLocalStorageMode c (world s) = (Inl e, w1)"
  then have g: "\<not> initialized s" "\<not> initializing s" and m: "isLocalStorageMode c (world s) = (Inl e, w1)"
    by simp_all
  show "fst (initializeSyncManagers c s) = Return False"
    by (simp add: initializeSyncManagers_def enter_mode_throws [OF g m])
  show "new_events s (snd (initializeSyncManagers c s)) =
        [Invoke_isLocalStorageMode, Log Error ''Error initializing sync managers:'' (Some e)]"
    by (simp add: initializeSyncManagers_def enter_mode_throws [OF g m] new_events_def)
next
  assume a: "\<not> initialized s \<and> \<not> initializing s \<and> isLocalStorageMode c (world s) = (Inr False, w1) \<and>
    resetRegistryInitialization c w1 = (Inl e, w2)"
  then have g: "\<not> initialized s" "\<not> initializing s"
    and m: "isLocalStorageMode c (world s) = (Inr False, w1)"
    and r: "resetRegistryInitialization c w1 = (Inl e, w2)"
    by simp_all
  show "fst (initializeSyncManagers c s) = Return False"
    by (simp add: initializeSyncManagers_def enter_reset_throws [OF g m r])
  show "new_events s (snd (initializeSyncManagers c s)) =
        [Invoke_isLocalStorageMode, Invoke_resetRegistryInitialization,
         Log Error ''Error initializing sync managers:'' (Some e)]"
    by (simp add: initializeSyncManagers_def enter_reset_throws [OF g m r] new_events_def)
next
  from resume_fetch_summary [of c r t]
  show "fst (initializeSyncManagers_resume_fetch c r t) = Return True \<and>
      \<not> initializing (snd (initializeSyncManagers_resume_fetch c r t)) \<or>
    fst (initializeSyncManagers_resume_fetch c r t) = Await AwaitDelay"
    by blast
next
  show "fst (initializeSyncManagers_resume_delay c t) = Return True"
    by (simp add: resume_delay_eq)
next
  show "\<not> initializing (snd (initializeSyncManagers_resume_delay c t))"
    by (simp add: resume_delay_eq)
qed

theorem no_exception_escapes_witness:
  "fst (initializeSyncManagers reset_throws (boot True)) = Return False \<and>
   \<not> initializing (snd (initializeSyncManagers reset_throws (boot True))) \<and>
   new_events (boot True) (snd (initializeSyncManagers reset_throws (boot True))) =
     [Invoke_isLocalStorageMode, Invoke_resetRegistryInitialization,
      Log Error ''Error initializing sync managers:'' (Some (JsError ''store gone''))]"
proof -
  have h: "\<not> initialized (boot True :: (string, bool) state) \<and>
    \<not> initializing (boot True :: (string, bool) state)"
    "\<not> initialized (boot True :: (string, bool) state) \<and>
     \<not> initializing (boot True :: (string, bool) state) \<and>
     isLocalStorageMode reset_throws (world (boot True :: (string, bool) state)) = (Inr False, True) \<and>
     resetRegistryInitialization reset_throws True = (Inl (JsError ''store gone''), True)"
    by (simp_all add: reset_throws_def remote_def boot_def)
  from no_exception_escapes [of reset_throws "boot True" "JsError ''store gone''" True True] h
  show ?thesis by blast
qed

section \<open>Local storage mode\<close>

lemma driver_local:
  assumes "\<not> initialized s" and "\<not> initializing s"
    and "isLocalStorageMode c (world s) = (Inr True, w1)"
  shows "initializeSyncManagers c s =
     (Return True,
      s\<lparr>initialized := True, initializing := False, managers := [workflowSync c],
        world := w1, trace := trace s @ [Invoke_isLocalStorageMode]\<rparr>)"
  by (simp add: initializeSyncManagers_def enter_local [OF assms])

text \<open>
  C5. When a call passes the guard and \<open>isLocalStorageMode()\<close> returns true, the call
  sets \<open>managers\<close> to the one-element list of the workflow-sync handle, sets
  \<open>initialized\<close> and returns true. The only imported function it invokes is
  \<open>isLocalStorageMode\<close>, so the fetch is not started. Afterwards \<open>getSyncManagers()\<close>
  returns exactly that handle.
\<close>

theorem local_mode_skips_fetch:
  assumes "\<not> initialized s" and "\<not> initializing s"
    and "isLocalStorageMode c (world s) = (Inr True, w1)"
  shows "fst (initializeSyncManagers c s) = Return True \<and>
    managers (snd (initializeSyncManagers c s)) = [workflowSync c] \<and>
    initialized (snd (initializeSyncManagers c s)) \<and>
    \<not> initializing (snd (initializeSyncManagers c s)) \<and>
    new_events s (snd (initializeSyncManagers c s)) = [Invoke_isLocalStorageMode] \<and>
    Invoke_fetchWorkflowsFromDB \<notin> set (new_events s (snd (initializeSyncManagers c s))) \<and>
    getSyncManagers (snd (initializeSyncManagers c s)) = [workflowSync c]"
  by (simp add: driver_local [OF assms] new_events_def getSyncManagers_def)

theorem local_mode_skips_fetch_witness:
  "fst (initializeSyncManagers local_mode (boot True)) = Return True \<and>
   initialized (snd (initializeSyncManagers local_mode (boot True))) \<and>
   new_events (boot True) (snd (initializeSyncManagers local_mode (boot True))) =
     [Invoke_isLocalStorageMode] \<and>
   getSyncManagers (snd (initializeSyncManagers local_mode (boot True))) = [''workflowSync'']"
proof -
  have h: "\<not> initialized (boot True :: (string, bool) state)"
    "\<not> initializing (boot True :: (string, bool) state)"
    "isLocalStorageMode local_mode (world (boot True :: (string, bool) state)) = (Inr True, True)"
    by (simp_all add: local_mode_def remote_def boot_def)
  have w: "workflowSync local_mode = ''workflowSync''"
    by (simp add: local_mode_def remote_def)
  from local_mode_skips_fetch [OF h] show ?thesis
    unfolding w by blast
qed

text \<open>
  C10. On the local-storage path the call does not invoke
  \<open>resetRegistryInitialization\<close>: the world it leaves is the one
  \<open>isLocalStorageMode()\<close> returned in. In any call, an invocation of
  \<open>resetRegistryInitialization\<close> means that the call passed the guard and that
  \<open>isLocalStorageMode()\<close> returned false.
\<close>

theorem reset_only_on_non_local_path:
  "(\<not> initialized s \<and> \<not> initializing s \<and> isLocalStorageMode c (world s) = (Inr True, w1) \<longrightarrow>
      Invoke_resetRegistryInitialization \<notin> set (new_events s (snd (initializeSyncManagers c s))) \<and>
      world (snd (initializeSyncManagers c s)) = w1) \<and>
   (Invoke_resetRegistryInitialization \<in> set (new_events s (snd (initializeSyncManagers c s))) \<longrightarrow>
      \<not> initialized s \<and> \<not> initializing s \<and> fst (isLocalStorageMode c (world s)) = Inr False)"
proof (intro conjI impI)
  assume "\<not> initialized s \<and> \<not> initializing s \<and> isLocalStorageMode c (world s) = (Inr True, w1)"
  then have h: "\<not> initialized s" "\<not> initializing s" "isLocalStorageMode c (world s) = (Inr True, w1)"
    by simp_all
  show "Invoke_resetRegistryInitialization \<notin> set (new_events s (snd (initializeSyncManagers c s)))"
    by (simp add: driver_local [OF h] new_events_def)
  show "world (snd (initializeSyncManagers c s)) = w1"
    by (simp add: driver_local [OF h])
next
  assume r: "Invoke_resetRegistryInitialization \<in> set (new_events s (snd (initializeSyncManagers c s)))"
  have g: "\<not> (initialized s \<or> initializing s)"
  proof
    assume "initialized s \<or> initializing s"
    from driver_guard [OF this, of c] r show False by simp
  qed
  then have g1: "\<not> initialized s" and g2: "\<not> initializing s" by simp_all
  obtain x w1 where m: "isLocalStorageMode c (world s) = (x, w1)"
    by (cases "isLocalStorageMode c (world s)")
  have "x = Inr False"
  proof (cases x)
    case (Inl e)
    with m have "isLocalStorageMode c (world s) = (Inl e, w1)" by simp
    from enter_mode_throws [OF g1 g2 this] r show ?thesis
      by (simp add: initializeSyncManagers_def new_events_def)
  next
    case (Inr b)
    show ?thesis
    proof (cases b)
      case True
      with m Inr have "isLocalStorageMode c (world s) = (Inr True, w1)" by simp
      from driver_local [OF g1 g2 this] r show ?thesis
        by (simp add: new_events_def)
    next
      case False
      with Inr show ?thesis by simp
    qed
  qed
  with m g1 g2 show "\<not> initialized s" "\<not> initializing s" "fst (isLocalStorageMode c (world s)) = Inr False"
    by simp_all
qed

theorem reset_only_on_non_local_path_witness:
  "Invoke_resetRegistryInitialization \<notin>
     set (new_events (boot True) (snd (initializeSyncManagers local_mode (boot True)))) \<and>
   world (snd (initializeSyncManagers local_mode (boot True))) = True \<and>
   Invoke_resetRegistryInitialization \<in>
     set (new_events (boot True) (snd (initializeSyncManagers remote (boot True)))) \<and>
   fst (isLocalStorageMode remote (world (boot True :: (string, bool) state))) = Inr False"
proof -
  have h: "\<not> initialized (boot True :: (string, bool) state) \<and>
    \<not> initializing (boot True :: (string, bool) state) \<and>
    isLocalStorageMode local_mode (world (boot True :: (string, bool) state)) = (Inr True, True)"
    by (simp add: local_mode_def remote_def boot_def)
  let ?s1 = "\<lparr>initialized = False, initializing = True, managers = [''workflowSync''],
       world = False, trace = [Invoke_isLocalStorageMode, Invoke_resetRegistryInitialization,
          Invoke_fetchWorkflowsFromDB]\<rparr> :: (string, bool) state"
  have d: "initializeSyncManagers remote (boot True) = await_all remote (Await AwaitFetch, ?s1)"
    by (simp only: initializeSyncManagers_def remote_enter)
  have a: "awaitFetch remote (world ?s1) = (Fulfilled, True)"
    "isRegistryInitialized remote True = (Inr True, True)"
    by (simp_all add: remote_def)
  have r: "Invoke_resetRegistryInitialization \<in>
     set (new_events (boot True) (snd (initializeSyncManagers remote (boot True))))"
    unfolding d await_all_ready [OF a]
    by (simp add: new_events_def boot_def)
  from reset_only_on_non_local_path [of "boot True" local_mode True] h
    reset_only_on_non_local_path [of "boot True" remote] r
  show ?thesis by blast
qed

section \<open>The synchronous exports\<close>

text \<open>
  C6. \<open>isSyncInitialized()\<close> leaves \<open>initialized\<close>, \<open>initializing\<close> and
  \<open>managers\<close> as they are, and when the registry predicate returns \<open>b\<close> its result
  is \<open>initialized \<and> b\<close>. (As \<open>&&\<close> does, it asks the predicate only when
  \<open>initialized\<close> is true; an exception of the predicate is then the caller's.)
\<close>

theorem isSyncInitialized_is_conjunction:
  "initialized (snd (isSyncInitialized c s)) = initialized s \<and>
   initializing (snd (isSyncInitialized c s)) = initializing s \<and>
   managers (snd (isSyncInitialized c s)) = managers s \<and>
   (\<forall>b. fst (isRegistryInitialized c (world s)) = Inr b \<longrightarrow>
      fst (isSyncInitialized c s) = Inr (initialized s \<and> b)) \<and>
   (\<forall>e. fst (isRegistryInitialized c (world s)) = Inl e \<longrightarrow>
      fst (isSyncInitialized c s) = (if initialized s then Inl e else Inr False))"
  by (simp add: isSyncInitialized_def call_defs invoke_eq)

theorem isSyncInitialized_is_conjunction_witness:
  "fst (isSyncInitialized remote ((boot True)\<lparr>initialized := True\<rparr>)) = Inr True \<and>
   fst (isSyncInitialized remote ((boot False)\<lparr>initialized := True\<rparr>)) = Inr False \<and>
   fst (isSyncInitialized remote (boot True)) = Inr False \<and>
   managers (snd (isSyncInitialized remote ((boot True)\<lparr>initialized := True\<rparr>))) = []"
proof -
  have p: "fst (isRegistryInitialized remote (world ((boot True)\<lparr>initialized := True\<rparr> :: (string, bool) state))) = Inr True"
    "fst (isRegistryInitialized remote (world ((boot False)\<lparr>initialized := True\<rparr> :: (string, bool) state))) = Inr False"
    "fst (isRegistryInitialized remote (world (boot True :: (string, bool) state))) = Inr True"
    by (simp_all add: remote_def boot_def)
  have v: "initialized ((boot True)\<lparr>initialized := True\<rparr> :: (string, bool) state)"
    "initialized ((boot False)\<lparr>initialized := True\<rparr> :: (string, bool) state)"
    "\<not> initialized (boot True :: (string, bool) state)"
    "managers ((boot True)\<lparr>initialized := True\<rparr> :: (string, bool) state) = []"
    by (simp_all add: boot_def)
  have 1: "fst (isSyncInitialized remote ((boot True)\<lparr>initialized := True\<rparr>)) =
      Inr (initialized ((boot True)\<lparr>initialized := True\<rparr> :: (string, bool) state) \<and> True)"
    using isSyncInitialized_is_conjunction [of remote "(boot True)\<lparr>initialized := True\<rparr>"] p(1)
    by blast
  have 2: "fst (isSyncInitialized remote ((boot False)\<lparr>initialized := True\<rparr>)) =
      Inr (initialized ((boot False)\<lparr>initialized := True\<rparr> :: (string, bool) state) \<and> False)"
    using isSyncInitialized_is_conjunction [of remote "(boot False)\<lparr>initialized := True\<rparr>"] p(2)
    by blast
  have 3: "fst (isSyncInitialized remote (boot True)) =
      Inr (initialized (boot True :: (string, bool) state) \<and> True)"
    using isSyncInitialized_is_conjunction [of remote "boot True"] p(3)
    by blast
  have 4: "managers (snd (isSyncInitialized remote ((boot True)\<lparr>initialized := True\<rparr>))) =
      managers ((boot True)\<lparr>initialized := True\<rparr> :: (string, bool) state)"
    using isSyncInitialized_is_conjunction [of remote "(boot True)\<lparr>initialized := True\<rparr>"]
    by blast
  show ?thesis
    unfolding 1 2 3 4 using v by simp
qed

text \<open>
  C7. From any state \<open>resetSyncManagers()\<close> clears \<open>initialized\<close> and
  \<open>initializing\<close>, empties \<open>managers\<close> and invokes
  \<open>resetRegistryInitialization\<close> once, whose outcome is its own. Right afterwards
  \<open>getSyncManagers()\<close> returns the empty list and \<open>isSyncInitialized()\<close> returns
  false.
\<close>

theorem resetSyncManagers_clears_everything:
  "\<not> initialized (snd (resetSyncManagers c s)) \<and>
   \<not> initializing (snd (resetSyncManagers c s)) \<and>
   managers (snd (resetSyncManagers c s)) = [] \<and>
   new_events s (snd (resetSyncManagers c s)) = [Invoke_resetRegistryInitialization] \<and>
   world (snd (resetSyncManagers c s)) = snd (resetRegistryInitialization c (world s)) \<and>
   fst (resetSyncManagers c s) = fst (resetRegistryInitialization c (world s)) \<and>
   getSyncManagers (snd (resetSyncManagers c s)) = [] \<and>
   isSyncInitialized c (snd (resetSyncManagers c s)) = (Inr False, snd (resetSyncManagers c s))"
  by (simp add: resetSyncManagers_def isSyncInitialized_def getSyncManagers_def call_defs
        invoke_eq new_events_def)

theorem resetSyncManagers_clears_everything_witness:
  "getSyncManagers (snd (resetSyncManagers remote
      \<lparr>initialized = True, initializing = False, managers = [''workflowSync''],
       world = True, trace = []\<rparr>)) = [] \<and>
   fst (isSyncInitialized remote (snd (resetSyncManagers remote
      \<lparr>initialized = True, initializing = False, managers = [''workflowSync''],
       world = True, trace = []\<rparr>))) = Inr False \<and>
   world (snd (resetSyncManagers remote
      \<lparr>initialized = True, initializing = False, managers = [''workflowSync''],
       world = True, trace = []\<rparr>)) = False"
  using resetSyncManagers_clears_everything [of remote
      "\<lparr>initialized = True, initializing = False, managers = [''workflowSync''],
       world = True, trace = []\<rparr>"]
  by (simp add: remote_def)

section \<open>A failed call is not rolled back\<close>

text \<open>
  C9. When a call that passed the guard took the non-local branch and returned false,
  it was \<open>resetRegistryInitialization()\<close> that threw, and what the call did before is
  kept: \<open>managers\<close> is the one-element list of the workflow-sync handle, so
  \<open>getSyncManagers()\<close> is not empty, \<open>resetRegistryInitialization\<close> has been invoked,
  and \<open>initialized\<close> is still false.
\<close>

theorem failure_is_not_rolled_back:
  assumes "\<not> initialized s" and "\<not> initializing s"
    and "isLocalStorageMode c (world s) = (Inr False, w1)"
    and "fst (initializeSyncManagers c s) = Return False"
  shows "(\<exists>e. fst (resetRegistryInitialization c w1) = Inl e) \<and>
    managers (snd (initializeSyncManagers c s)) = [workflowSync c] \<and>
    getSyncManagers (snd (initializeSyncManagers c s)) \<noteq> [] \<and>
    Invoke_resetRegistryInitialization \<in> set (new_events s (snd (initializeSyncManagers c s))) \<and>
    world (snd (initializeSyncManagers c s)) = snd (resetRegistryInitialization c w1) \<and>
    \<not> initialized (snd (initializeSyncManagers c s)) \<and>
    \<not> initializing (snd (initializeSyncManagers c s))"
proof -
  obtain y w2 where r: "resetRegistryInitialization c w1 = (y, w2)"
    by (cases "resetRegistryInitialization c w1")
  show ?thesis
  proof (cases y)
    case (Inl e)
    with r have r': "resetRegistryInitialization c w1 = (Inl e, w2)" by simp
    show ?thesis
      using assms(1)
      by (simp add: initializeSyncManagers_def enter_reset_throws [OF assms(1-3) r'] r'
            new_events_def getSyncManagers_def)
  next
    case (Inr u)
    with r have r': "resetRegistryInitialization c w1 = (Inr u, w2)" by simp
    obtain z w3 where f: "fetchWorkflowsFromDB c w2 = (z, w3)"
      by (cases "fetchWorkflowsFromDB c w2")
    have "fst (initializeSyncManagers c s) = Return True"
    proof (cases z)
      case (Inl e)
      with f have "fetchWorkflowsFromDB c w2 = (Inl e, w3)" by simp
      from enter_fetch_throws [OF assms(1-3) r' this] show ?thesis
        by (simp add: initializeSyncManagers_def)
    next
      case (Inr u')
      with f have "fetchWorkflowsFromDB c w2 = (Inr u', w3)" by simp
      from enter_fetch_pending [OF assms(1-3) r' this] show ?thesis
        by (simp add: initializeSyncManagers_def await_all_fetch_summary)
    qed
    with assms(4) show ?thesis by simp
  qed
qed

theorem failure_is_not_rolled_back_witness:
  "fst (initializeSyncManagers reset_throws (boot True)) = Return False \<and>
   managers (snd (initializeSyncManagers reset_throws (boot True))) = [''workflowSync''] \<and>
   Invoke_resetRegistryInitialization \<in>
     set (new_events (boot True) (snd (initializeSyncManagers reset_throws (boot True)))) \<and>
   \<not> initialized (snd (initializeSyncManagers reset_throws (boot True)))"
proof -
  have h: "\<not> initialized (boot True :: (string, bool) state)"
    "\<not> initializing (boot True :: (string, bool) state)"
    "isLocalStorageMode reset_throws (world (boot True :: (string, bool) state)) = (Inr False, True)"
    by (simp_all add: reset_throws_def remote_def boot_def)
  have r: "resetRegistryInitialization reset_throws True = (Inl (JsError ''store gone''), True)"
    by (simp add: reset_throws_def remote_def)
  have f: "fst (initializeSyncManagers reset_throws (boot True)) = Return False"
    by (simp add: initializeSyncManagers_def enter_reset_throws [OF h r])
  have w: "workflowSync reset_throws = ''workflowSync''"
    by (simp add: reset_throws_def remote_def)
  from failure_is_not_rolled_back [OF h f] f show ?thesis
    unfolding w by blast
qed

section \<open>The flags between two steps\<close>

lemma resumed_Return: "resumed i (Return b, s) ps = (s, take i ps @ drop (Suc i) ps)"
  by (simp add: resumed_def)

lemma resumed_Await: "resumed i (Await p, s) ps = (s, ps[i := p])"
  by (simp add: resumed_def)

lemma step_initialize:
  assumes "step c CallInitialize (s, ps) = Some (s', ps')"
  shows "(s' = s \<and> ps' = ps) \<or>
         (\<not> initialized s \<and> \<not> initializing s' \<and> ps' = ps) \<or>
         (\<not> initialized s \<and> \<not> initialized s' \<and> initializing s' \<and> ps' = ps @ [AwaitFetch])"
proof (cases "initialized s \<or> initializing s")
  case True
  from enter_guard [OF this, of c] assms show ?thesis by simp
next
  case False
  then have g: "\<not> initialized s" "\<not> initializing s" by simp_all
  obtain f s1 where e: "initializeSyncManagers_enter c s = (f, s1)"
    by (cases "initializeSyncManagers_enter c s")
  from enter_summary [OF g, of c] e
  consider b where "f = Return b" "\<not> initializing s1"
    | "f = Await AwaitFetch" "\<not> initialized s1" "initializing s1"
    by auto
  then show ?thesis
  proof cases
    case 1
    with e assms g show ?thesis by simp
  next
    case 2
    with e assms g show ?thesis by simp
  qed
qed

lemma step_fetch_settles:
  assumes "step c (FetchSettles i r) (s, ps) = Some (s', ps')"
  shows "(initialized s' \<and> \<not> initializing s') \<or>
         (initialized s' = initialized s \<and> initializing s' = initializing s \<and> ps' \<noteq> [])"
proof -
  from assms have en: "i < length ps"
    by (simp split: if_splits)
  obtain f s1 where e: "initializeSyncManagers_resume_fetch c r s = (f, s1)"
    by (cases "initializeSyncManagers_resume_fetch c r s")
  from assms en e have st: "(s', ps') = resumed i (f, s1) ps"
    by (simp split: if_splits)
  from resume_fetch_summary [of c r s] e
  consider "f = Return True" "initialized s1" "\<not> initializing s1"
    | "f = Await AwaitDelay" "initialized s1 = initialized s" "initializing s1 = initializing s"
    by auto
  then show ?thesis
  proof cases
    case 1
    with st show ?thesis by (simp add: resumed_Return)
  next
    case 2
    with st en show ?thesis by (auto simp: resumed_Await)
  qed
qed

lemma step_timer_fires:
  assumes "step c (TimerFires i) (s, ps) = Some (s', ps')"
  shows "initialized s' \<and> \<not> initializing s'"
proof -
  from assms have "(s', ps') = resumed i (initializeSyncManagers_resume_delay c s) ps"
    by (simp split: if_splits)
  then show ?thesis by (simp add: resume_delay_eq resumed_Return)
qed

lemma step_reset:
  assumes "step c CallReset (s, ps) = Some (s', ps')"
  shows "\<not> initialized s' \<and> \<not> initializing s' \<and> ps' = ps"
  using assms by (auto simp: resetSyncManagers_def call_defs invoke_eq)

lemma isSyncInitialized_frame:
  "initialized (snd (isSyncInitialized c s)) = initialized s \<and>
   initializing (snd (isSyncInitialized c s)) = initializing s"
  by (simp add: isSyncInitialized_def call_defs invoke_eq)

lemma step_query:
  assumes "step c CallIsSyncInitialized (s, ps) = Some (s', ps')"
  shows "initialized s' = initialized s \<and> initializing s' = initializing s \<and> ps' = ps"
proof -
  from assms have "s' = snd (isSyncInitialized c s)" and "ps' = ps" by simp_all
  with isSyncInitialized_frame [of c s] show ?thesis by simp
qed

lemma step_coherent:
  assumes "coherent (s, ps)" and "step c a (s, ps) = Some (s', ps')"
  shows "coherent (s', ps')"
proof (cases a)
  case CallInitialize
  with assms(2) step_initialize [of c s ps s' ps'] assms(1) show ?thesis
    by (auto simp: coherent_def)
next
  case (FetchSettles i r)
  with assms(2) step_fetch_settles [of c i r s ps s' ps'] assms(1) show ?thesis
    by (auto simp: coherent_def)
next
  case (TimerFires i)
  with assms(2) step_timer_fires [of c i s ps s' ps'] show ?thesis
    by (simp add: coherent_def)
next
  case CallReset
  with assms(2) step_reset [of c s ps s' ps'] show ?thesis
    by (simp add: coherent_def)
next
  case CallIsSyncInitialized
  with assms(2) step_query [of c s ps s' ps'] assms(1) show ?thesis
    by (simp add: coherent_def)
next
  case CallGetSyncManagers
  with assms show ?thesis by simp
next
  case (Environment w)
  with assms show ?thesis by (auto simp: coherent_def)
qed

lemma run_coherent:
  "coherent cfg \<Longrightarrow> run c acts cfg = Some cfg' \<Longrightarrow> coherent cfg'"
proof (induction acts arbitrary: cfg)
  case Nil
  then show ?case by simp
next
  case (Cons a acts)
  from Cons.prems(2) obtain cfg1 where s: "step c a cfg = Some cfg1" and r: "run c acts cfg1 = Some cfg'"
    by (auto split: option.splits)
  from step_coherent [of "fst cfg" "snd cfg" c a "fst cfg1" "snd cfg1"] Cons.prems(1) s
  have "coherent cfg1" by simp
  from Cons.IH [OF this r] show ?case .
qed

lemma initial_coherent: "coherent (initial w)"
  by (simp add: coherent_def initial_def boot_def)

lemma step_keeps_initialized:
  assumes "a \<noteq> CallReset" and "initialized s" and "step c a (s, ps) = Some (s', ps')"
  shows "initialized s'"
proof (cases a)
  case CallInitialize
  with assms step_initialize [of c s ps s' ps'] show ?thesis by auto
next
  case (FetchSettles i r)
  with assms step_fetch_settles [of c i r s ps s' ps'] show ?thesis by auto
next
  case (TimerFires i)
  with assms step_timer_fires [of c i s ps s' ps'] show ?thesis by simp
next
  case CallReset
  with assms show ?thesis by simp
next
  case CallIsSyncInitialized
  with assms step_query [of c s ps s' ps'] show ?thesis by simp
next
  case CallGetSyncManagers
  with assms show ?thesis by simp
next
  case (Environment w)
  with assms show ?thesis by auto
qed

lemma rises_none:
  "CallReset \<notin> set acts \<Longrightarrow> initialized (fst cfg) \<Longrightarrow> rises c acts cfg = 0"
proof (induction acts arbitrary: cfg)
  case Nil
  then show ?case by simp
next
  case (Cons a acts)
  show ?case
  proof (cases "step c a cfg")
    case None
    then show ?thesis by simp
  next
    case (Some cfg1)
    from Cons.prems have na: "a \<noteq> CallReset" and nr: "CallReset \<notin> set acts" by auto
    from step_keeps_initialized [OF na, of "fst cfg" c "snd cfg" "fst cfg1" "snd cfg1"] Cons.prems(2) Some
    have i: "initialized (fst cfg1)" by simp
    from Cons.IH [OF nr i] Some Cons.prems(2) show ?thesis by simp
  qed
qed

lemma rises_at_most_once:
  "CallReset \<notin> set acts \<Longrightarrow> rises c acts cfg \<le> 1"
proof (induction acts arbitrary: cfg)
  case Nil
  then show ?case by simp
next
  case (Cons a acts)
  from Cons.prems have nr: "CallReset \<notin> set acts" by simp
  show ?case
  proof (cases "step c a cfg")
    case None
    then show ?thesis by simp
  next
    case (Some cfg1)
    show ?thesis
    proof (cases "initialized (fst cfg1)")
      case True
      from rises_none [OF nr True, of c] Some show ?thesis by simp
    next
      case False
      from Cons.IH [OF nr, of cfg1] Some False show ?thesis by simp
    qed
  qed
qed

text \<open>
  C8. In every configuration the module reaches from module load
  (\<open>initialized = false\<close>, \<open>initializing = false\<close>, \<open>managers = []\<close>, no call in
  flight), by calls of its exports, resumptions of suspended calls and changes of the
  external world in any order:
  \<open>initializing\<close> is false whenever no call of \<open>initializeSyncManagers\<close> is in
  flight; \<open>initialized\<close> and \<open>initializing\<close> are never both true, so a call that
  finds \<open>initializing\<close> true finds \<open>initialized\<close> false and returns false;
  along any continuation without \<open>resetSyncManagers()\<close>, \<open>initialized\<close> goes from
  false to true at most once; and only \<open>resetSyncManagers()\<close> makes it false again.
\<close>

theorem flags_invariant:
  assumes "run c acts (initial w) = Some (s, ps)"
  shows "(ps = [] \<longrightarrow> \<not> initializing s) \<and>
    \<not> (initialized s \<and> initializing s) \<and>
    (initializing s \<longrightarrow> initializeSyncManagers_enter c s = (Return False, s)) \<and>
    (CallReset \<notin> set rest \<longrightarrow> rises c rest (s, ps) \<le> 1) \<and>
    (a \<noteq> CallReset \<and> initialized s \<and> step c a (s, ps) = Some (s', ps') \<longrightarrow> initialized s')"
proof -
  from run_coherent [OF initial_coherent assms]
  have co: "\<not> (initialized s \<and> initializing s)" "initializing s \<longrightarrow> ps \<noteq> []"
    by (simp_all add: coherent_def)
  have "initializeSyncManagers_enter c s = (Return False, s)" if "initializing s"
  proof -
    from that co(1) have "\<not> initialized s" by simp
    with enter_guard [of s c] that show ?thesis by simp
  qed
  moreover have "rises c rest (s, ps) \<le> 1" if "CallReset \<notin> set rest"
    using that by (rule rises_at_most_once)
  moreover have "initialized s'"
    if "a \<noteq> CallReset \<and> initialized s \<and> step c a (s, ps) = Some (s', ps')"
    using that step_keeps_initialized [of a s c ps s' ps'] by simp
  ultimately show ?thesis
    using co by blast
qed

lemmas run_defs =
  initializeSyncManagers_enter_def initializeSyncManagers_resume_fetch_def
  initializeSyncManagers_resume_delay_def outer_start_def inner_start_def inner_resume_fetch_def
  inner_resume_delay_def inner_check_def inner_verify_def wrap_defs call_defs invoke_def
  logger_def setTimeout_def resetSyncManagers_def resumed_def

lemma remote_first_call:
  "run remote [CallInitialize] (initial True) =
     Some (\<lparr>initialized = False, initializing = True, managers = [''workflowSync''],
             world = False,
             trace = [Invoke_isLocalStorageMode, Invoke_resetRegistryInitialization,
               Invoke_fetchWorkflowsFromDB]\<rparr>, [AwaitFetch])"
  by (simp add: initial_def remote_enter)

lemma remote_interleaved:
  "run remote [CallInitialize, CallReset, CallInitialize, Environment True,
      FetchSettles 0 Fulfilled] (initial True) =
     Some (\<lparr>initialized = True, initializing = False, managers = [''workflowSync''],
             world = True,
             trace = [Invoke_isLocalStorageMode, Invoke_resetRegistryInitialization,
               Invoke_fetchWorkflowsFromDB, Invoke_resetRegistryInitialization,
               Invoke_isLocalStorageMode, Invoke_resetRegistryInitialization,
               Invoke_fetchWorkflowsFromDB, Invoke_isRegistryInitialized,
               Invoke_isRegistryInitialized,
               Log Info ''Registry initialization verified'' None]\<rparr>, [AwaitFetch])"
  by (simp add: run_defs initial_def boot_def remote_def)

theorem flags_invariant_witness:
  "run remote [CallInitialize] (initial True) =
     Some (\<lparr>initialized = False, initializing = True, managers = [''workflowSync''],
             world = False,
             trace = [Invoke_isLocalStorageMode, Invoke_resetRegistryInitialization,
               Invoke_fetchWorkflowsFromDB]\<rparr>, [AwaitFetch]) \<and>
   initializeSyncManagers_enter remote
     \<lparr>initialized = False, initializing = True, managers = [''workflowSync''],
       world = False,
       trace = [Invoke_isLocalStorageMode, Invoke_resetRegistryInitialization,
         Invoke_fetchWorkflowsFromDB]\<rparr> =
     (Return False,
      \<lparr>initialized = False, initializing = True, managers = [''workflowSync''],
       world = False,
       trace = [Invoke_isLocalStorageMode, Invoke_resetRegistryInitialization,
         Invoke_fetchWorkflowsFromDB]\<rparr>) \<and>
   rises remote [Environment True, FetchSettles 0 Fulfilled, CallInitialize]
     (\<lparr>initialized = False, initializing = True, managers = [''workflowSync''],
       world = False,
       trace = [Invoke_isLocalStorageMode, Invoke_resetRegistryInitialization,
         Invoke_fetchWorkflowsFromDB]\<rparr>, [AwaitFetch]) \<le> 1 \<and>
   run remote [CallInitialize, CallReset, CallInitialize, Environment True,
      FetchSettles 0 Fulfilled] (initial True) =
     Some (\<lparr>initialized = True, initializing = False, managers = [''workflowSync''],
             world = True,
             trace = [Invoke_isLocalStorageMode, Invoke_resetRegistryInitialization,
               Invoke_fetchWorkflowsFromDB, Invoke_resetRegistryInitialization,
               Invoke_isLocalStorageMode, Invoke_resetRegistryInitialization,
               Invoke_fetchWorkflowsFromDB, Invoke_isRegistryInitialized,
               Invoke_isRegistryInitialized,
               Log Info ''Registry initialization verified'' None]\<rparr>, [AwaitFetch]) \<and>
   initialized (fst (the (step remote (FetchSettles 0 (Rejected (JsError ''offline'')))
     (\<lparr>initialized = True, initializing = False, managers = [''workflowSync''],
             world = True,
             trace = [Invoke_isLocalStorageMode, Invoke_resetRegistryInitialization,
               Invoke_fetchWorkflowsFromDB, Invoke_resetRegistryInitialization,
               Invoke_isLocalStorageMode, Invoke_resetRegistryInitialization,
               Invoke_fetchWorkflowsFromDB, Invoke_isRegistryInitialized,
               Invoke_isRegistryInitialized,
               Log Info ''Registry initialization verified'' None]\<rparr>, [AwaitFetch]))))"
proof -
  let ?s1 = "\<lparr>initialized = False, initializing = True, managers = [''workflowSync''],
       world = False,
       trace = [Invoke_isLocalStorageMode, Invoke_resetRegistryInitialization,
         Invoke_fetchWorkflowsFromDB]\<rparr> :: (string, bool) state"
  let ?s2 = "\<lparr>initialized = True, initializing = False, managers = [''workflowSync''],
             world = True,
             trace = [Invoke_isLocalStorageMode, Invoke_resetRegistryInitialization,
               Invoke_fetchWorkflowsFromDB, Invoke_resetRegistryInitialization,
               Invoke_isLocalStorageMode, Invoke_resetRegistryInitialization,
               Invoke_fetchWorkflowsFromDB, Invoke_isRegistryInitialized,
               Invoke_isRegistryInitialized,
               Log Info ''Registry initialization verified'' None]\<rparr> :: (string, bool) state"
  let ?rest = "[Environment True, FetchSettles 0 Fulfilled, CallInitialize]"
  let ?a = "FetchSettles 0 (Rejected (JsError ''offline'')) :: bool action"
  have i: "initializing ?s1" by simp
  have n: "CallReset \<notin> set ?rest" by simp
  from flags_invariant [OF remote_first_call, of ?rest] i n
  have 1: "initializeSyncManagers_enter remote ?s1 = (Return False, ?s1)"
    and 2: "rises remote ?rest (?s1, [AwaitFetch]) \<le> 1"
    by blast+
  obtain s' ps' where st: "step remote ?a (?s2, [AwaitFetch]) = Some (s', ps')"
    by (cases "step remote ?a (?s2, [AwaitFetch])") auto
  have "?a \<noteq> CallReset \<and> initialized ?s2" by simp
  with flags_invariant [OF remote_interleaved, of _ ?a s' ps'] st
  have "initialized s'" by blast
  with st have 3: "initialized (fst (the (step remote ?a (?s2, [AwaitFetch]))))" by simp
  from remote_first_call remote_interleaved 1 2 3 show ?thesis by blast
qed

section \<open>A call that arrives while another is in flight\<close>

lemma step_initialize_shape:
  assumes "step c CallInitialize (s, ps) = Some (s', ps')"
  shows "((initialized s \<or> initializing s) \<and> s' = s \<and> ps' = ps) \<or>
         (\<not> initialized s \<and> \<not> initializing s \<and>
          (ps' = ps \<or> \<not> initialized s' \<and> initializing s' \<and> ps' = ps @ [AwaitFetch]))"
proof (cases "initialized s \<or> initializing s")
  case True
  from enter_guard [OF this, of c] assms True show ?thesis by simp
next
  case False
  then have g: "\<not> initialized s" "\<not> initializing s" by simp_all
  obtain f s1 where e: "initializeSyncManagers_enter c s = (f, s1)"
    by (cases "initializeSyncManagers_enter c s")
  from enter_summary [OF g, of c] e
  consider b where "f = Return b"
    | "f = Await AwaitFetch" "\<not> initialized s1" "initializing s1"
    by auto
  then show ?thesis
  proof cases
    case 1
    with e assms g show ?thesis by simp
  next
    case 2
    with e assms g show ?thesis by simp
  qed
qed

lemma step_fetch_settles_shape:
  assumes "step c (FetchSettles i r) (s, ps) = Some (s', ps')"
  shows "i < length ps \<and>
         (ps' = take i ps @ drop (Suc i) ps \<or>
          initialized s' = initialized s \<and> initializing s' = initializing s \<and>
          ps' = ps[i := AwaitDelay])"
proof -
  from assms have en: "i < length ps"
    by (simp split: if_splits)
  obtain f s1 where e: "initializeSyncManagers_resume_fetch c r s = (f, s1)"
    by (cases "initializeSyncManagers_resume_fetch c r s")
  from assms en e have st: "(s', ps') = resumed i (f, s1) ps"
    by (simp split: if_splits)
  from resume_fetch_summary [of c r s] e
  consider "f = Return True"
    | "f = Await AwaitDelay" "initialized s1 = initialized s" "initializing s1 = initializing s"
    by auto
  then show ?thesis
  proof cases
    case 1
    with st en show ?thesis by (simp add: resumed_Return)
  next
    case 2
    with st en show ?thesis by (simp add: resumed_Await)
  qed
qed

lemma step_timer_fires_shape:
  assumes "step c (TimerFires i) (s, ps) = Some (s', ps')"
  shows "i < length ps \<and> ps' = take i ps @ drop (Suc i) ps"
proof -
  from assms have en: "i < length ps"
    by (simp split: if_splits)
  with assms have "(s', ps') = resumed i (initializeSyncManagers_resume_delay c s) ps"
    by (simp split: if_splits)
  with en show ?thesis by (simp add: resume_delay_eq resumed_Return)
qed

lemma one_removed: "i < length ps \<Longrightarrow> length ps \<le> 1 \<Longrightarrow> take i ps @ drop (Suc i) ps = []"
  by simp

lemma step_single_flight:
  assumes "single_flight (s, ps)" and "step c a (s, ps) = Some (s', ps')"
    and "a = CallReset \<longrightarrow> ps = []"
  shows "single_flight (s', ps')"
proof -
  from assms(1) have len: "length ps \<le> 1"
    and fl: "ps \<noteq> [] \<Longrightarrow> initializing s \<and> \<not> initialized s"
    by (simp_all add: single_flight_def)
  show ?thesis
  proof (cases a)
    case CallInitialize
    with assms(2) step_initialize_shape [of c s ps s' ps']
    consider "s' = s" "ps' = ps"
      | "\<not> initializing s" "ps' = ps"
      | "\<not> initializing s" "\<not> initialized s'" "initializing s'" "ps' = ps @ [AwaitFetch]"
      by blast
    then show ?thesis
    proof cases
      case 1
      with assms(1) show ?thesis by simp
    next
      case 2
      with fl have "ps' = []" by blast
      then show ?thesis by (simp add: single_flight_def)
    next
      case 3
      with fl have "ps = []" by blast
      with 3 show ?thesis by (simp add: single_flight_def)
    qed
  next
    case (FetchSettles i r)
    with assms(2) step_fetch_settles_shape [of c i r s ps s' ps']
    have en: "i < length ps"
      and sh: "ps' = take i ps @ drop (Suc i) ps \<or>
          initialized s' = initialized s \<and> initializing s' = initializing s \<and>
          ps' = ps[i := AwaitDelay]"
      by blast+
    from sh show ?thesis
    proof
      assume "ps' = take i ps @ drop (Suc i) ps"
      with one_removed [OF en len] have "ps' = []" by simp
      then show ?thesis by (simp add: single_flight_def)
    next
      assume k: "initialized s' = initialized s \<and> initializing s' = initializing s \<and>
          ps' = ps[i := AwaitDelay]"
      from en have "ps \<noteq> []" by auto
      with fl have "initializing s \<and> \<not> initialized s" by blast
      with k len show ?thesis by (simp add: single_flight_def)
    qed
  next
    case (TimerFires i)
    with assms(2) step_timer_fires_shape [of c i s ps s' ps']
    have en: "i < length ps" and sh: "ps' = take i ps @ drop (Suc i) ps"
      by blast+
    with one_removed [OF en len] have "ps' = []" by simp
    then show ?thesis by (simp add: single_flight_def)
  next
    case CallReset
    with assms(3) have "ps = []" by simp
    moreover from CallReset assms(2) step_reset [of c s ps s' ps'] have "ps' = ps" by blast
    ultimately show ?thesis by (simp add: single_flight_def)
  next
    case CallIsSyncInitialized
    with assms(2) step_query [of c s ps s' ps']
    have "initialized s' = initialized s \<and> initializing s' = initializing s \<and> ps' = ps"
      by blast
    with assms(1) show ?thesis by (simp add: single_flight_def)
  next
    case CallGetSyncManagers
    with assms(2) have "s' = s" "ps' = ps" by simp_all
    with assms(1) show ?thesis by simp
  next
    case (Environment w)
    with assms(2) have "s' = s\<lparr>world := w\<rparr>" "ps' = ps" by auto
    with assms(1) show ?thesis by (simp add: single_flight_def)
  qed
qed

lemma run_single_flight:
  "single_flight cfg \<Longrightarrow> resets_idle c acts cfg \<Longrightarrow> run c acts cfg = Some cfg' \<Longrightarrow>
   single_flight cfg'"
proof (induction acts arbitrary: cfg)
  case Nil
  then show ?case by simp
next
  case (Cons a acts)
  from Cons.prems(3) obtain cfg1 where s: "step c a cfg = Some cfg1" and r: "run c acts cfg1 = Some cfg'"
    by (auto split: option.splits)
  from Cons.prems(2) s have i: "a = CallReset \<longrightarrow> snd cfg = []" and ri: "resets_idle c acts cfg1"
    by simp_all
  from step_single_flight [of "fst cfg" "snd cfg" c a "fst cfg1" "snd cfg1"] Cons.prems(1) s i
  have "single_flight cfg1" by simp
  from Cons.IH [OF this ri r] show ?case .
qed

lemma initial_single_flight: "single_flight (initial w)"
  by (simp add: single_flight_def initial_def)

lemma reset_free_idle: "CallReset \<notin> set acts \<Longrightarrow> resets_idle c acts cfg"
proof (induction acts arbitrary: cfg)
  case Nil
  then show ?case by simp
next
  case (Cons a acts)
  then have "a \<noteq> CallReset" and "\<And>cfg'. resets_idle c acts cfg'" by auto
  then show ?case by (simp split: option.split)
qed


lemma remote_reset_in_flight:
  "run remote [CallInitialize, CallReset] (initial True) =
     Some (\<lparr>initialized = False, initializing = False, managers = [], world = False,
             trace = [Invoke_isLocalStorageMode, Invoke_resetRegistryInitialization,
               Invoke_fetchWorkflowsFromDB, Invoke_resetRegistryInitialization]\<rparr>,
           [AwaitFetch])"
  by (simp add: run_defs initial_def boot_def remote_def)

text \<open>
  C1, as the claim states it, fails in its in-flight clause. \<open>resetSyncManagers()\<close>
  clears both flags and leaves a suspended call suspended. After a call and a reset
  a call is in flight and the next call passes the guard: it invokes the imported
  functions again and suspends. And once the older of two calls in flight has
  completed, a third call returns true while the younger is still in flight.
\<close>

theorem call_in_flight_after_reset_counterexample:
  "run remote [CallInitialize, CallReset] (initial True) =
     Some (\<lparr>initialized = False, initializing = False, managers = [], world = False,
             trace = [Invoke_isLocalStorageMode, Invoke_resetRegistryInitialization,
               Invoke_fetchWorkflowsFromDB, Invoke_resetRegistryInitialization]\<rparr>,
           [AwaitFetch]) \<and>
   initializeSyncManagers_enter remote
     \<lparr>initialized = False, initializing = False, managers = [], world = False,
       trace = [Invoke_isLocalStorageMode, Invoke_resetRegistryInitialization,
         Invoke_fetchWorkflowsFromDB, Invoke_resetRegistryInitialization]\<rparr> =
     (Await AwaitFetch,
      \<lparr>initialized = False, initializing = True, managers = [''workflowSync''],
        world = False,
        trace = [Invoke_isLocalStorageMode, Invoke_resetRegistryInitialization,
          Invoke_fetchWorkflowsFromDB, Invoke_resetRegistryInitialization,
          Invoke_isLocalStorageMode, Invoke_resetRegistryInitialization,
          Invoke_fetchWorkflowsFromDB]\<rparr>) \<and>
   run remote [CallInitialize, CallReset, CallInitialize, Environment True,
      FetchSettles 0 Fulfilled] (initial True) =
     Some (\<lparr>initialized = True, initializing = False, managers = [''workflowSync''],
             world = True,
             trace = [Invoke_isLocalStorageMode, Invoke_resetRegistryInitialization,
               Invoke_fetchWorkflowsFromDB, Invoke_resetRegistryInitialization,
               Invoke_isLocalStorageMode, Invoke_resetRegistryInitialization,
               Invoke_fetchWorkflowsFromDB, Invoke_isRegistryInitialized,
               Invoke_isRegistryInitialized,
               Log Info ''Registry initialization verified'' None]\<rparr>, [AwaitFetch]) \<and>
   initializeSyncManagers remote
     \<lparr>initialized = True, initializing = False, managers = [''workflowSync''],
       world = True,
       trace = [Invoke_isLocalStorageMode, Invoke_resetRegistryInitialization,
         Invoke_fetchWorkflowsFromDB, Invoke_resetRegistryInitialization,
         Invoke_isLocalStorageMode, Invoke_resetRegistryInitialization,
         Invoke_fetchWorkflowsFromDB, Invoke_isRegistryInitialized,
         Invoke_isRegistryInitialized,
         Log Info ''Registry initialization verified'' None]\<rparr> =
     (Return True,
      \<lparr>initialized = True, initializing = False, managers = [''workflowSync''],
       world = True,
       trace = [Invoke_isLocalStorageMode, Invoke_resetRegistryInitialization,
         Invoke_fetchWorkflowsFromDB, Invoke_resetRegistryInitialization,
         Invoke_isLocalStorageMode, Invoke_resetRegistryInitialization,
         Invoke_fetchWorkflowsFromDB, Invoke_isRegistryInitialized,
         Invoke_isRegistryInitialized,
         Log Info ''Registry initialization verified'' None]\<rparr>)"
proof -
  have "initializeSyncManagers_enter remote
     \<lparr>initialized = False, initializing = False, managers = [], world = False,
       trace = [Invoke_isLocalStorageMode, Invoke_resetRegistryInitialization,
         Invoke_fetchWorkflowsFromDB, Invoke_resetRegistryInitialization]\<rparr> =
     (Await AwaitFetch,
      \<lparr>initialized = False, initializing = True, managers = [''workflowSync''],
        world = False,
        trace = [Invoke_isLocalStorageMode, Invoke_resetRegistryInitialization,
          Invoke_fetchWorkflowsFromDB, Invoke_resetRegistryInitialization,
          Invoke_isLocalStorageMode, Invoke_resetRegistryInitialization,
          Invoke_fetchWorkflowsFromDB]\<rparr>)"
    by (simp add: enter_fetch_pending [where ?w1.0 = False and ?w2.0 = False and ?w3.0 = False]
          remote_def)
  moreover have "initializeSyncManagers remote
     \<lparr>initialized = True, initializing = False, managers = [''workflowSync''],
       world = True,
       trace = [Invoke_isLocalStorageMode, Invoke_resetRegistryInitialization,
         Invoke_fetchWorkflowsFromDB, Invoke_resetRegistryInitialization,
         Invoke_isLocalStorageMode, Invoke_resetRegistryInitialization,
         Invoke_fetchWorkflowsFromDB, Invoke_isRegistryInitialized,
         Invoke_isRegistryInitialized,
         Log Info ''Registry initialization verified'' None]\<rparr> =
     (Return True,
      \<lparr>initialized = True, initializing = False, managers = [''workflowSync''],
       world = True,
       trace = [Invoke_isLocalStorageMode, Invoke_resetRegistryInitialization,
         Invoke_fetchWorkflowsFromDB, Invoke_resetRegistryInitialization,
         Invoke_isLocalStorageMode, Invoke_resetRegistryInitialization,
         Invoke_fetchWorkflowsFromDB, Invoke_isRegistryInitialized,
         Invoke_isRegistryInitialized,
         Log Info ''Registry initialization verified'' None]\<rparr>)"
    by (simp add: driver_guard)
  ultimately show ?thesis
    using remote_reset_in_flight remote_interleaved by blast
qed

text \<open>
  C1, amended. When \<open>initialized\<close> or \<open>initializing\<close> is true, a call of
  \<open>initializeSyncManagers\<close> returns the current \<open>initialized\<close> at once and leaves
  the whole state as it was: the three variables, the external world and the trace, so
  no imported function is invoked and nothing is logged. With \<open>initialized\<close> true and
  \<open>initializing\<close> false it returns true. A call that arrives when another call has just
  suspended at its \<open>await\<close> returns false and changes nothing; and so does a call
  that arrives while another call is in flight, in every configuration reached from
  module load (by calls, resumptions and world changes in any order) in which
  \<open>resetSyncManagers()\<close> was never called while a call was in flight, in particular
  when it was never called.
\<close>

theorem guard_returns_without_effects:
  "(initialized s \<or> initializing s \<longrightarrow>
      initializeSyncManagers c s = (Return (initialized s), s) \<and>
      new_events s (snd (initializeSyncManagers c s)) = []) \<and>
   (initialized s \<and> \<not> initializing s \<longrightarrow> initializeSyncManagers c s = (Return True, s)) \<and>
   (initializeSyncManagers_enter c s = (Await p, s1) \<longrightarrow>
      initializeSyncManagers c s1 = (Return False, s1)) \<and>
   (run c acts (initial w) = Some (t, ps) \<and> resets_idle c acts (initial w) \<and> ps \<noteq> [] \<longrightarrow>
      initializeSyncManagers c t = (Return False, t) \<and>
      new_events t (snd (initializeSyncManagers c t)) = []) \<and>
   (run c acts (initial w) = Some (t, ps) \<and> CallReset \<notin> set acts \<and> ps \<noteq> [] \<longrightarrow>
      initializeSyncManagers c t = (Return False, t) \<and>
      new_events t (snd (initializeSyncManagers c t)) = [])"
proof -
  have idle: "initializeSyncManagers c t = (Return False, t) \<and>
      new_events t (snd (initializeSyncManagers c t)) = []"
    if "run c acts (initial w) = Some (t, ps) \<and> resets_idle c acts (initial w) \<and> ps \<noteq> []"
  proof -
    from that have r: "run c acts (initial w) = Some (t, ps)"
      and i: "resets_idle c acts (initial w)" and n: "ps \<noteq> []"
      by simp_all
    from run_single_flight [OF initial_single_flight i r] n
    have "initializing t" "\<not> initialized t"
      by (simp_all add: single_flight_def)
    then show ?thesis by (simp add: driver_guard)
  qed
  have free: "initializeSyncManagers c t = (Return False, t) \<and>
      new_events t (snd (initializeSyncManagers c t)) = []"
    if "run c acts (initial w) = Some (t, ps) \<and> CallReset \<notin> set acts \<and> ps \<noteq> []"
  proof -
    from that have "resets_idle c acts (initial w)"
      using reset_free_idle [of acts c "initial w"] by blast
    with that idle show ?thesis by blast
  qed
  have a: "initializeSyncManagers c s = (Return (initialized s), s) \<and>
      new_events s (snd (initializeSyncManagers c s)) = []"
    if "initialized s \<or> initializing s"
    using that by (simp add: driver_guard)
  have b: "initializeSyncManagers c s = (Return True, s)"
    if "initialized s \<and> \<not> initializing s"
    using that by (simp add: driver_guard)
  have d: "initializeSyncManagers c s1 = (Return False, s1)"
    if "initializeSyncManagers_enter c s = (Await p, s1)"
    using enter_pending_flags [OF that] by (simp add: driver_guard)
  from a b d idle free show ?thesis by blast
qed

lemma remote_reset_then_call:
  "run remote [CallReset, CallInitialize] (initial True) =
     Some (\<lparr>initialized = False, initializing = True, managers = [''workflowSync''],
             world = False,
             trace = [Invoke_resetRegistryInitialization, Invoke_isLocalStorageMode,
               Invoke_resetRegistryInitialization, Invoke_fetchWorkflowsFromDB]\<rparr>,
           [AwaitFetch]) \<and>
   resets_idle remote [CallReset, CallInitialize] (initial True)"
  by (simp add: run_defs initial_def boot_def remote_def)

theorem guard_returns_without_effects_witness:
  "initializeSyncManagers remote ((boot True)\<lparr>initialized := True\<rparr>) =
     (Return True, (boot True)\<lparr>initialized := True\<rparr>) \<and>
   initializeSyncManagers_enter remote (boot True) =
     (Await AwaitFetch, \<lparr>initialized = False, initializing = True, managers = [''workflowSync''],
       world = False, trace = [Invoke_isLocalStorageMode, Invoke_resetRegistryInitialization,
          Invoke_fetchWorkflowsFromDB]\<rparr>) \<and>
   initializeSyncManagers remote
     \<lparr>initialized = False, initializing = True, managers = [''workflowSync''],
       world = False, trace = [Invoke_isLocalStorageMode, Invoke_resetRegistryInitialization,
          Invoke_fetchWorkflowsFromDB]\<rparr> =
     (Return False, \<lparr>initialized = False, initializing = True, managers = [''workflowSync''],
       world = False, trace = [Invoke_isLocalStorageMode, Invoke_resetRegistryInitialization,
          Invoke_fetchWorkflowsFromDB]\<rparr>) \<and>
   run remote [CallReset, CallInitialize] (initial True) =
     Some (\<lparr>initialized = False, initializing = True, managers = [''workflowSync''],
             world = False,
             trace = [Invoke_resetRegistryInitialization, Invoke_isLocalStorageMode,
               Invoke_resetRegistryInitialization, Invoke_fetchWorkflowsFromDB]\<rparr>,
           [AwaitFetch]) \<and>
   initializeSyncManagers remote
     \<lparr>initialized = False, initializing = True, managers = [''workflowSync''],
       world = False,
       trace = [Invoke_resetRegistryInitialization, Invoke_isLocalStorageMode,
         Invoke_resetRegistryInitialization, Invoke_fetchWorkflowsFromDB]\<rparr> =
     (Return False,
      \<lparr>initialized = False, initializing = True, managers = [''workflowSync''],
       world = False,
       trace = [Invoke_resetRegistryInitialization, Invoke_isLocalStorageMode,
         Invoke_resetRegistryInitialization, Invoke_fetchWorkflowsFromDB]\<rparr>)"
proof -
  let ?s1 = "\<lparr>initialized = False, initializing = True, managers = [''workflowSync''],
       world = False, trace = [Invoke_isLocalStorageMode, Invoke_resetRegistryInitialization,
          Invoke_fetchWorkflowsFromDB]\<rparr> :: (string, bool) state"
  let ?t = "\<lparr>initialized = False, initializing = True, managers = [''workflowSync''],
       world = False,
       trace = [Invoke_resetRegistryInitialization, Invoke_isLocalStorageMode,
         Invoke_resetRegistryInitialization, Invoke_fetchWorkflowsFromDB]\<rparr> :: (string, bool) state"
  have i: "initialized ((boot True)\<lparr>initialized := True\<rparr> :: (string, bool) state) \<and>
      \<not> initializing ((boot True)\<lparr>initialized := True\<rparr> :: (string, bool) state)"
    by (simp add: boot_def)
  from guard_returns_without_effects [of "(boot True)\<lparr>initialized := True\<rparr>" remote] i
  have 1: "initializeSyncManagers remote ((boot True)\<lparr>initialized := True\<rparr>) =
     (Return True, (boot True)\<lparr>initialized := True\<rparr>)"
    by blast
  from guard_returns_without_effects [of "boot True" remote AwaitFetch ?s1] remote_enter
  have 2: "initializeSyncManagers remote ?s1 = (Return False, ?s1)"
    by blast
  have n: "[AwaitFetch] \<noteq> []" by simp
  from guard_returns_without_effects [of _ remote _ _ "[CallReset, CallInitialize]" True ?t "[AwaitFetch]"]
    remote_reset_then_call n
  have 3: "initializeSyncManagers remote ?t = (Return False, ?t)"
    by blast
  from 1 2 3 remote_enter remote_reset_then_call show ?thesis by blast
qed

end
